theory Spec2Isabelle
  imports Complex_Main
begin

section \<open>Numbers\<close>

text \<open>
  The TypeScript sources compute on the \<open>number\<close> type, the 64-bit binary floating-point
  numbers.  In this development a \<open>number\<close> is a real, and \<open>null\<close> is \<open>None\<close>.  There is no
  NaN, no infinity and no signed zero in the model.

  Rounding is modelled where it moves a result across the boundary of its range: at the
  additions of \<open>360\<close> that wrap an angle (\<open>normalizeAngle\<close>, \<open>calculateBearing\<close>,
  \<open>AngleFilter.update\<close>) and at the subtraction that starts \<open>angleDifference\<close>.  There the
  model computes the exact result and rounds it with \<open>rnd\<close>, as the hardware does.  All other
  arithmetic is exact in the model, and \<open>Math.sin\<close>, \<open>Math.cos\<close>, \<open>Math.atan2\<close> and
  \<open>Math.sqrt\<close>, which the language standard leaves to the implementation to approximate, are
  the exact functions.  The model therefore follows the code up to rounding errors of
  relative size about \<open>2\<^sup>-\<^sup>5\<^sup>3\<close> per operation.  The theorems about the filter are stated
  with a tolerance and on a bounded domain for that reason, and the places where the code
  leaves the model altogether (a NaN, a loop that rounding stops from advancing) are named
  where they occur.
\<close>

subsection \<open>Rounding to the nearest 64-bit floating-point number\<close>

text \<open>Rounding a real to the nearest integer, a tie going to the even neighbour.\<close>

definition round_even :: "real \<Rightarrow> int" where
  "round_even t =
     (let f = \<lfloor>t\<rfloor>; d = t - of_int f
      in if d < 1 / 2 then f else if 1 / 2 < d then f + 1 else if even f then f else f + 1)"

text \<open>
  The binary exponent of a nonzero real, not below the exponent \<open>-1022\<close> of the subnormal
  numbers, and the distance \<open>ulp\<close> between neighbouring floating-point numbers there: the
  significand has \<open>53\<close> bits.
\<close>

definition binade :: "real \<Rightarrow> int" where
  "binade x = max \<lfloor>log 2 \<bar>x\<bar>\<rfloor> (- 1022)"

definition ulp :: "real \<Rightarrow> real" where
  "ulp x = 2 powr (of_int (binade x) - 52)"

text \<open>
  Round to nearest, ties to even.  Overflow to infinity is not modelled: every rounded
  value in this development is far below \<open>2\<^sup>1\<^sup>0\<^sup>2\<^sup>4\<close>.
\<close>

definition rnd :: "real \<Rightarrow> real" where
  "rnd x = (if x = 0 then 0 else ulp x * of_int (round_even (x / ulp x)))"

subsection \<open>Remainder\<close>

text \<open>
  The remainder operator \<open>x % y\<close> of the source language truncates the quotient towards
  zero, so the result carries the sign of the dividend.  On floating-point numbers the
  remainder is computed without rounding.  Every use in the sources has the divisor \<open>360\<close>.
\<close>

definition js_trunc :: "real \<Rightarrow> int" where
  "js_trunc x = (if x < 0 then \<lceil>x\<rceil> else \<lfloor>x\<rfloor>)"

definition js_rem :: "real \<Rightarrow> real \<Rightarrow> real" where
  "js_rem x y = x - y * of_int (js_trunc (x / y))"

section \<open>Geodesy (utils/geolocation)\<close>

text \<open>
  \<open>normalizeAngle\<close>: \<open>let normalized = angle % 360; if (normalized < 0) normalized += 360\<close>.
  The addition is rounded.
\<close>

definition normalizeAngle :: "real \<Rightarrow> real" where
  "normalizeAngle angle =
     (let normalized = js_rem angle 360
      in if normalized < 0 then rnd (normalized + 360) else normalized)"

text \<open>
  \<open>angleDifference\<close> rounds the difference \<open>angle2 - angle1\<close> and then runs two loops one
  after the other: \<open>while (diff > 180) diff -= 360; while (diff < -180) diff += 360\<close>.
  Each loop is a recursive function of its own.

  On a floating-point \<open>diff\<close> of magnitude below \<open>2\<^sup>5\<^sup>6\<close> the step \<open>diff -= 360\<close> is computed
  without rounding (the result is a multiple of the unit in the last place of \<open>diff\<close>, and
  smaller in magnitude), so the loops of the model, which subtract exactly, are the loops
  of the code there.  Beyond magnitude \<open>2\<^sup>6\<^sup>2\<close> rounding gives \<open>diff\<close> back unchanged and the
  loop of the code never ends; the model does not show this, and the theorem about
  \<open>angleDifference\<close> below is stated for differences of magnitude at most \<open>2\<^sup>5\<^sup>3\<close>.
\<close>

function angleDifference_down :: "real \<Rightarrow> real" where
  "angleDifference_down diff = (if diff > 180 then angleDifference_down (diff - 360) else diff)"
  by pat_completeness auto
termination
proof (relation "measure (\<lambda>d. nat \<lceil>d\<rceil>)")
  show "wf (measure (\<lambda>d::real. nat \<lceil>d\<rceil>))" by simp
next
  fix diff :: real
  assume "180 < diff"
  then have "0 < \<lceil>diff\<rceil>" by linarith
  moreover have "\<lceil>diff - 360\<rceil> = \<lceil>diff\<rceil> - 360"
    using ceiling_diff_numeral [of diff] by simp
  ultimately show "(diff - 360, diff) \<in> measure (\<lambda>d. nat \<lceil>d\<rceil>)" by simp
qed

function angleDifference_up :: "real \<Rightarrow> real" where
  "angleDifference_up diff = (if diff < - 180 then angleDifference_up (diff + 360) else diff)"
  by pat_completeness auto
termination
proof (relation "measure (\<lambda>d. nat \<lceil>- d\<rceil>)")
  show "wf (measure (\<lambda>d::real. nat \<lceil>- d\<rceil>))" by simp
next
  fix diff :: real
  assume "diff < - 180"
  then have "0 < \<lceil>- diff\<rceil>" by linarith
  moreover have "\<lceil>- (diff + 360)\<rceil> = \<lceil>- diff\<rceil> - 360"
    using ceiling_diff_numeral [of "- diff"] by simp
  ultimately show "(diff + 360, diff) \<in> measure (\<lambda>d. nat \<lceil>- d\<rceil>)" by simp
qed

definition angleDifference :: "real \<Rightarrow> real \<Rightarrow> real" where
  "angleDifference angle1 angle2 =
     angleDifference_up (angleDifference_down (rnd (angle2 - angle1)))"


text \<open>
  \<open>Math.atan2(y, x)\<close> is part of the language's standard library.  It is modelled by its
  mathematical meaning on the reals: the angle in \<open>(-\<pi>, \<pi>]\<close> of the point \<open>(x, y)\<close>, and
  \<open>0\<close> at the origin.
\<close>

definition atan2 :: "real \<Rightarrow> real \<Rightarrow> real" where
  "atan2 y x =
     (if 0 < x then arctan (y / x)
      else if x < 0 then (if 0 \<le> y then arctan (y / x) + pi else arctan (y / x) - pi)
      else if 0 < y then pi / 2
      else if y < 0 then - (pi / 2)
      else 0)"

record Coordinates =
  latitude :: real
  longitude :: real

definition EARTH_RADIUS_METERS :: real where
  "EARTH_RADIUS_METERS = 6371000"

definition toRadians :: "real \<Rightarrow> real" where
  "toRadians degrees = degrees * (pi / 180)"

definition toDegrees :: "real \<Rightarrow> real" where
  "toDegrees radians = radians * (180 / pi)"

text \<open>
  The quantity \<open>a\<close> of the Haversine formula, as \<open>calculateDistance\<close> computes it, in exact
  arithmetic.  Exactly, \<open>a\<close> lies in \<open>[0, 1]\<close> (lemma \<open>haversine_a_range\<close> below), and both
  square roots of \<open>calculateDistance\<close> are defined.  In the code \<open>a\<close> carries rounding errors,
  and where the exact \<open>a\<close> is \<open>1\<close> (a pair of antipodes) the computed \<open>a\<close> can exceed \<open>1\<close>:
  then \<open>Math.sqrt(1 - a)\<close> and the result are NaN.  The model has no NaN and does not show
  this path.
\<close>

definition haversine_a :: "Coordinates \<Rightarrow> Coordinates \<Rightarrow> real" where
  "haversine_a coord1 coord2 =
     (let lat1Rad = toRadians (latitude coord1);
          lat2Rad = toRadians (latitude coord2);
          deltaLatRad = toRadians (latitude coord2 - latitude coord1);
          deltaLonRad = toRadians (longitude coord2 - longitude coord1)
      in sin (deltaLatRad / 2) * sin (deltaLatRad / 2) +
         cos lat1Rad * cos lat2Rad * sin (deltaLonRad / 2) * sin (deltaLonRad / 2))"

definition calculateDistance :: "Coordinates \<Rightarrow> Coordinates \<Rightarrow> real" where
  "calculateDistance coord1 coord2 =
     (let a = haversine_a coord1 coord2;
          c = 2 * atan2 (sqrt a) (sqrt (1 - a))
      in EARTH_RADIUS_METERS * c)"

definition calculateBearing :: "Coordinates \<Rightarrow> Coordinates \<Rightarrow> real" where
  "calculateBearing from to =
     (let lat1Rad = toRadians (latitude from);
          lat2Rad = toRadians (latitude to);
          deltaLonRad = toRadians (longitude to - longitude from);
          y = sin deltaLonRad * cos lat2Rad;
          x = cos lat1Rad * sin lat2Rad - sin lat1Rad * cos lat2Rad * cos deltaLonRad;
          bearingRad = atan2 y x;
          bearingDeg = toDegrees bearingRad
      in js_rem (rnd (bearingDeg + 360)) 360)"

section \<open>The circular angle filter (utils/filters, class AngleFilter)\<close>

record AngleFilter =
  sinAvg :: real
  cosAvg :: real
  alpha :: real

text \<open>The constructor clamps the smoothing factor: \<open>Math.max(0, Math.min(1, alpha))\<close>.\<close>

definition AngleFilter_new :: "real \<Rightarrow> AngleFilter" where
  "AngleFilter_new a = \<lparr>sinAvg = 0, cosAvg = 0, alpha = max 0 (min 1 a)\<rparr>"

text \<open>
  \<open>update\<close> returns the smoothed angle together with the filter after the call.  The
  addition of \<open>360\<close> before the remainder is rounded.
\<close>

definition AngleFilter_update :: "real \<Rightarrow> AngleFilter \<Rightarrow> real \<times> AngleFilter" where
  "AngleFilter_update angleDegrees f =
     (let angleRad = (angleDegrees * pi) / 180;
          f' = f\<lparr>sinAvg := alpha f * sin angleRad + (1 - alpha f) * sinAvg f,
                 cosAvg := alpha f * cos angleRad + (1 - alpha f) * cosAvg f\<rparr>;
          smoothedRad = atan2 (sinAvg f') (cosAvg f');
          smoothedDeg = (smoothedRad * 180) / pi
      in (js_rem (rnd (smoothedDeg + 360)) 360, f'))"

definition AngleFilter_reset :: "AngleFilter \<Rightarrow> AngleFilter" where
  "AngleFilter_reset f = f\<lparr>sinAvg := 0, cosAvg := 0\<rparr>"

text \<open>
  Feeding a list of samples, one \<open>update\<close> call per sample: the outputs in order, and the
  filter after the last call.
\<close>

fun AngleFilter_feed :: "real list \<Rightarrow> AngleFilter \<Rightarrow> real list \<times> AngleFilter" where
  "AngleFilter_feed [] f = ([], f)"
| "AngleFilter_feed (x # xs) f =
     (case AngleFilter_update x f of
        (out, f') \<Rightarrow> (case AngleFilter_feed xs f' of (outs, f'') \<Rightarrow> (out # outs, f'')))"


text \<open>
  The value that \<open>update\<close> returns, as a function of the two accumulators after the call
  (lemma \<open>AngleFilter_update_smoothed\<close> below).
\<close>

definition smoothed :: "real \<Rightarrow> real \<Rightarrow> real" where
  "smoothed S C = js_rem (rnd (atan2 S C * 180 / pi + 360)) 360"

section \<open>Subscribers\<close>

text \<open>
  A subscriber callback either returns (\<open>None\<close>) or throws (\<open>Some e\<close>).  The registry is a
  \<open>Set\<close>, which \<open>forEach\<close> visits in insertion order: a list.  \<open>forEach\<close> has no handler, so
  the first callback that throws ends the loop.  The result is the number of callbacks that
  were called and the exception that left the loop, if any.
\<close>

fun forEach :: "('a \<Rightarrow> 'e option) list \<Rightarrow> 'a \<Rightarrow> nat \<times> 'e option" where
  "forEach [] a = (0, None)"
| "forEach (listener # rest) a =
     (case listener a of
        Some e \<Rightarrow> (1, Some e)
      | None \<Rightarrow> (case forEach rest a of (k, r) \<Rightarrow> (Suc k, r)))"

text \<open>Two test subscribers: one that returns, one that throws.\<close>

definition returning_subscriber :: "'a \<Rightarrow> unit option" where
  "returning_subscriber a = None"

definition throwing_subscriber :: "'a \<Rightarrow> unit option" where
  "throwing_subscriber a = Some ()"

section \<open>The orientation engine (services/SensorService)\<close>

record Rotation =
  rot_alpha :: real
  rot_beta :: real
  rot_gamma :: real

record 'e SensorService =
  headingFilter :: AngleFilter
  currentHeading :: real
  currentPitch :: real
  currentRoll :: real
  isCalibrated :: bool
  calibrationOffset :: real
  listeners :: "(real \<times> real \<times> real \<Rightarrow> 'e option) list"

text \<open>
  The field initialisers of the class; the heading filter is \<open>new AngleFilter(0.2)\<close>.  The
  handles of the platform subscriptions and the pitch and roll filters are left out: no
  ingest path reads or writes them.
\<close>

definition SensorService_new :: "'e SensorService" where
  "SensorService_new =
     \<lparr>headingFilter = AngleFilter_new 0.2, currentHeading = 0, currentPitch = 0,
      currentRoll = 0, isCalibrated = False, calibrationOffset = 0, listeners = []\<rparr>"

definition notifyListeners :: "'e SensorService \<Rightarrow> nat \<times> 'e option" where
  "notifyListeners s = forEach (listeners s) (currentHeading s, currentPitch s, currentRoll s)"

text \<open>
  \<open>processDeviceMotion(data)\<close>: \<open>data.rotation\<close> may be missing, and then nothing happens.
  The result is the engine after the call, the number of subscribers called and the
  exception that left the call, if any.  No statement of the method is inside a
  \<open>try\<close> block.
\<close>

definition processDeviceMotion ::
    "Rotation option \<Rightarrow> 'e SensorService \<Rightarrow> 'e SensorService \<times> nat \<times> 'e option" where
  "processDeviceMotion rotation s =
     (case rotation of
        None \<Rightarrow> (s, 0, None)
      | Some r \<Rightarrow>
          (let heading0 = rot_alpha r * (180 / pi);
               (heading1, filter') = AngleFilter_update (normalizeAngle heading0) (headingFilter s);
               heading2 = normalizeAngle (heading1 + calibrationOffset s);
               s' = s\<lparr>headingFilter := filter', currentHeading := heading2,
                      currentPitch := rot_beta r * (180 / pi),
                      currentRoll := rot_gamma r * (180 / pi)\<rparr>
           in (s', notifyListeners s')))"

definition processMagnetometer ::
    "real \<times> real \<times> real \<Rightarrow> 'e SensorService \<Rightarrow> 'e SensorService \<times> nat \<times> 'e option" where
  "processMagnetometer xyz s =
     (case xyz of (x, y, z) \<Rightarrow>
        (let heading0 = normalizeAngle (atan2 y x * (180 / pi));
             (heading1, filter') = AngleFilter_update heading0 (headingFilter s);
             heading2 = normalizeAngle (heading1 + calibrationOffset s);
             s' = s\<lparr>headingFilter := filter', currentHeading := heading2\<rparr>
         in (s', notifyListeners s')))"

definition calibrate :: "real \<Rightarrow> 'e SensorService \<Rightarrow> 'e SensorService" where
  "calibrate trueHeading s =
     s\<lparr>calibrationOffset := trueHeading - currentHeading s, isCalibrated := True\<rparr>"

definition resetCalibration :: "'e SensorService \<Rightarrow> 'e SensorService" where
  "resetCalibration s = s\<lparr>calibrationOffset := 0, isCalibrated := False\<rparr>"

text \<open>
  A proof invariant for the calibration scenario below: the accumulators of the heading
  filter point at \<open>90\<close> degrees, and the smoothing factor is in \<open>(0, 1]\<close>.
\<close>

definition pointing_90 :: "'e SensorService \<Rightarrow> bool" where
  "pointing_90 s = (0 < alpha (headingFilter s) \<and> alpha (headingFilter s) \<le> 1 \<and>
     0 \<le> sinAvg (headingFilter s) \<and> cosAvg (headingFilter s) = 0)"

text \<open>The raw sample of the scenario: a rotation of a quarter turn about the vertical axis.\<close>

definition quarter :: "Rotation option" where
  "quarter = Some \<lparr>rot_alpha = pi / 2, rot_beta = 0, rot_gamma = 0\<rparr>"

section \<open>The location tracker (services/LocationService)\<close>

text \<open>The fields \<open>currentLocation\<close> and \<open>listeners\<close>; the platform subscription is left out.\<close>

record 'e LocationService =
  currentLocation :: "Coordinates option"
  locationListeners :: "(Coordinates \<Rightarrow> 'e option) list"

text \<open>
  The callback that \<open>startWatching\<close> hands to \<open>watchPositionAsync\<close>: store the new fix, then
  call every subscriber.  The \<open>try\<close> block of \<open>startWatching\<close> has been left by the time
  the callback runs.
\<close>

definition locationCallback ::
    "Coordinates \<Rightarrow> 'e LocationService \<Rightarrow> 'e LocationService \<times> nat \<times> 'e option" where
  "locationCallback newLocation s =
     (let s' = s\<lparr>currentLocation := Some newLocation\<rparr>
      in (s', forEach (locationListeners s') newLocation))"

section \<open>The navigation snapshot (hooks/useNavigation)\<close>

record NavigationData =
  userLocation :: "Coordinates option"
  targetLocation :: Coordinates
  distance :: "real option"
  bearing :: "real option"
  deviceHeading :: "real option"
  relativeAngle :: "real option"

definition TARGET_LOCATION :: Coordinates where
  "TARGET_LOCATION = \<lparr>latitude = 13.0453132, longitude = 77.5733936\<rparr>"

text \<open>The initial value of the \<open>useState\<close> cell.\<close>

definition initialNavigationData :: NavigationData where
  "initialNavigationData =
     \<lparr>userLocation = None, targetLocation = TARGET_LOCATION, distance = None,
      bearing = None, deviceHeading = None, relativeAngle = None\<rparr>"

text \<open>The two reducers handed to \<open>setNavigationData\<close>, as functions of the previous snapshot.\<close>

definition updateLocation :: "Coordinates \<Rightarrow> NavigationData \<Rightarrow> NavigationData" where
  "updateLocation location prev =
     (let d = calculateDistance location TARGET_LOCATION;
          b = calculateBearing location TARGET_LOCATION;
          ra = (case deviceHeading prev of
                  None \<Rightarrow> None
                | Some h \<Rightarrow> Some (angleDifference h b))
      in prev\<lparr>userLocation := Some location, distance := Some d, bearing := Some b,
              relativeAngle := ra\<rparr>)"

definition updateDeviceHeading :: "real \<Rightarrow> NavigationData \<Rightarrow> NavigationData" where
  "updateDeviceHeading heading prev =
     (let normalizedHeading = normalizeAngle heading;
          ra = (case bearing prev of
                  None \<Rightarrow> None
                | Some b \<Rightarrow> Some (angleDifference normalizedHeading b))
      in prev\<lparr>deviceHeading := Some normalizedHeading, relativeAngle := ra\<rparr>)"

text \<open>The snapshots the hook can hold: the initial one, and any reducer applied to one.\<close>

inductive reachable :: "NavigationData \<Rightarrow> bool" where
  reachable_initial: "reachable initialNavigationData"
| reachable_location: "reachable s \<Longrightarrow> reachable (updateLocation location s)"
| reachable_heading: "reachable s \<Longrightarrow> reachable (updateDeviceHeading heading s)"

text \<open>
  The joint-nullity invariant: distance and bearing are present exactly when the user
  location is, and the relative angle exactly when bearing and device heading both are.
\<close>

definition nullity_invariant :: "NavigationData \<Rightarrow> bool" where
  "nullity_invariant s =
     ((distance s \<noteq> None) = (userLocation s \<noteq> None) \<and>
      (bearing s \<noteq> None) = (userLocation s \<noteq> None) \<and>
      (relativeAngle s \<noteq> None) = (bearing s \<noteq> None \<and> deviceHeading s \<noteq> None))"

section \<open>Properties of rounding\<close>

lemma round_even_error: "\<bar>of_int (round_even t) - t\<bar> \<le> 1 / 2"
proof -
  have "of_int \<lfloor>t\<rfloor> \<le> t" "t < of_int \<lfloor>t\<rfloor> + 1" by linarith+
  then show ?thesis by (auto simp: round_even_def Let_def)
qed

lemma round_even_nearest:
  assumes "\<bar>t - of_int n\<bar> < 1 / 2"
  shows "round_even t = n"
proof (cases "of_int n \<le> t")
  case True
  then have f: "\<lfloor>t\<rfloor> = n" using assms by (intro floor_unique) linarith+
  show ?thesis unfolding round_even_def f Let_def using assms True by simp
next
  case False
  then have f: "\<lfloor>t\<rfloor> = n - 1" using assms by (intro floor_unique) (simp, linarith)+
  have "1 / 2 < t - of_int (n - 1)" using assms False by simp
  then show ?thesis unfolding round_even_def f Let_def by simp
qed

lemma ulp_binade:
  fixes k :: nat
  assumes "2 ^ k \<le> \<bar>x\<bar>" "\<bar>x\<bar> < 2 ^ Suc k"
  shows "ulp x = 2 ^ k / 2 ^ 52"
proof -
  have x: "0 < \<bar>x\<bar>" using assms(1) by (smt (verit) zero_less_power)
  have "real_of_int (int k + 1) = real (Suc k)" by simp
  then have "2 powr (of_int (int k + 1)) = (2::real) ^ Suc k"
    using powr_realpow [of 2 "Suc k"] by (simp only:)
  moreover have "2 powr (of_int (int k)) = (2::real) ^ k"
    using powr_realpow [of 2 k] by simp
  ultimately have "2 powr (of_int (int k)) \<le> \<bar>x\<bar>" "\<bar>x\<bar> < 2 powr (of_int (int k + 1))"
    using assms by (simp_all only:)
  then have "\<lfloor>log 2 \<bar>x\<bar>\<rfloor> = int k"
    using floor_log_eq_powr_iff [of "\<bar>x\<bar>" 2 "int k"] x by simp
  then have "binade x = int k" by (simp add: binade_def)
  then have "ulp x = 2 powr (real k - 52)" by (simp add: ulp_def)
  also have "\<dots> = 2 powr real k / 2 powr 52" by (rule powr_diff)
  also have "\<dots> = 2 ^ k / 2 ^ 52" by (simp add: powr_realpow)
  finally show ?thesis .
qed

lemma rnd_error:
  fixes k :: nat
  assumes "2 ^ k \<le> \<bar>y\<bar>" "\<bar>y\<bar> < 2 ^ Suc k"
  shows "\<bar>rnd y - y\<bar> \<le> 2 ^ k / 2 ^ 53"
proof -
  define u :: real where "u = 2 ^ k / 2 ^ 52"
  have u: "0 < u" by (simp add: u_def)
  have y: "y \<noteq> 0" using assms(1) by (smt (verit) zero_less_power)
  have uy: "ulp y = u" unfolding u_def by (rule ulp_binade [OF assms])
  have r: "rnd y = u * of_int (round_even (y / u))"
    unfolding rnd_def uy using y by simp
  have "rnd y - y = u * (of_int (round_even (y / u)) - y / u)"
    unfolding r using u by (simp add: algebra_simps)
  then have "\<bar>rnd y - y\<bar> = u * \<bar>of_int (round_even (y / u)) - y / u\<bar>"
    using u by (simp add: abs_mult)
  also have "\<dots> \<le> u * (1 / 2)"
    using round_even_error [of "y / u"] u by (intro mult_left_mono) simp_all
  also have "\<dots> = 2 ^ k / 2 ^ 53" by (simp add: u_def)
  finally show ?thesis .
qed

lemma rnd_nearest:
  fixes k :: nat and n :: int
  assumes "2 ^ k \<le> \<bar>y\<bar>" "\<bar>y\<bar> < 2 ^ Suc k"
    and "z = 2 ^ k / 2 ^ 52 * of_int n" and "\<bar>y - z\<bar> < 2 ^ k / 2 ^ 53"
  shows "rnd y = z"
proof -
  define u :: real where "u = 2 ^ k / 2 ^ 52"
  have u: "0 < u" by (simp add: u_def)
  have y: "y \<noteq> 0" using assms(1) by (smt (verit) zero_less_power)
  have uy: "ulp y = u" unfolding u_def by (rule ulp_binade [OF assms(1,2)])
  have r: "rnd y = u * of_int (round_even (y / u))"
    unfolding rnd_def uy using y by simp
  have "y / u - of_int n = (y - z) / u" using u unfolding assms(3) u_def [symmetric]
    by (simp add: field_simps)
  then have "\<bar>y / u - of_int n\<bar> = \<bar>y - z\<bar> / u" using u by (simp add: abs_divide)
  also have "\<dots> < (2 ^ k / 2 ^ 53) / u" using assms(4) u by (rule divide_strict_right_mono)
  also have "\<dots> = 1 / 2" by (simp add: u_def)
  finally have "round_even (y / u) = n" by (rule round_even_nearest)
  then show ?thesis unfolding r assms(3) u_def by simp
qed


lemma rnd_450: "rnd 450 = 450"
  by (rule rnd_nearest [where k = 8 and n = "450 * 2 ^ 44"]) simp_all

lemma rnd_350: "rnd 350 = 350"
  by (rule rnd_nearest [where k = 8 and n = "350 * 2 ^ 44"]) simp_all

lemma rnd_m340: "rnd (- 340) = - 340"
  by (rule rnd_nearest [where k = 8 and n = "- 340 * 2 ^ 44"]) simp_all

lemma rnd_340: "rnd 340 = 340"
  by (rule rnd_nearest [where k = 8 and n = "340 * 2 ^ 44"]) simp_all

lemma rnd_m180: "rnd (- 180) = - 180"
  by (rule rnd_nearest [where k = 7 and n = "- 180 * 2 ^ 45"]) simp_all

lemma rnd_just_below_360: "rnd (- (1 / 2 ^ 70) + 360) = 360"
  by (rule rnd_nearest [where k = 8 and n = "360 * 2 ^ 44"]) simp_all

text \<open>Between \<open>128\<close> and \<open>1024\<close> the rounding error is at most \<open>2\<^sup>-\<^sup>4\<^sup>4\<close>.\<close>

lemma rnd_error_near_360:
  assumes "128 \<le> y" "y < 1024"
  shows "\<bar>rnd y - y\<bar> \<le> 1 / 2 ^ 44"
proof -
  consider "y < 256" | "256 \<le> y" "y < 512" | "512 \<le> y" by linarith
  then show ?thesis
  proof cases
    case 1
    then show ?thesis using rnd_error [of 7 y] assms by simp
  next
    case 2
    then show ?thesis using rnd_error [of 8 y] by simp
  next
    case 3
    then show ?thesis using rnd_error [of 9 y] assms by simp
  qed
qed


section \<open>Properties of the geodesy functions\<close>

subsection \<open>Remainder and normalisation\<close>

lemma js_rem_nonneg: "0 \<le> x \<Longrightarrow> 0 \<le> js_rem x 360 \<and> js_rem x 360 < 360"
proof -
  assume "0 \<le> x"
  then have t: "js_trunc (x / 360) = \<lfloor>x / 360\<rfloor>" by (simp add: js_trunc_def)
  have "of_int \<lfloor>x / 360\<rfloor> \<le> x / 360" "x / 360 < of_int \<lfloor>x / 360\<rfloor> + 1" by linarith+
  then show ?thesis unfolding js_rem_def t by linarith
qed

lemma js_rem_neg: "x < 0 \<Longrightarrow> - 360 < js_rem x 360 \<and> js_rem x 360 \<le> 0"
proof -
  assume "x < 0"
  then have t: "js_trunc (x / 360) = \<lceil>x / 360\<rceil>" by (simp add: js_trunc_def)
  have "x / 360 \<le> of_int \<lceil>x / 360\<rceil>" "of_int \<lceil>x / 360\<rceil> - 1 < x / 360" by linarith+
  then show ?thesis unfolding js_rem_def t by linarith
qed

lemma js_rem_small: "0 \<le> x \<Longrightarrow> x < 360 \<Longrightarrow> js_rem x 360 = x"
proof -
  assume a: "0 \<le> x" "x < 360"
  then have "\<lfloor>x / 360\<rfloor> = 0" by (simp add: floor_eq_iff)
  then show ?thesis using a by (simp add: js_rem_def js_trunc_def)
qed

lemma js_rem_wrap: "360 \<le> x \<Longrightarrow> x < 720 \<Longrightarrow> js_rem x 360 = x - 360"
proof -
  assume a: "360 \<le> x" "x < 720"
  then have "\<lfloor>x / 360\<rfloor> = 1" by (simp add: floor_eq_iff)
  then show ?thesis using a by (simp add: js_rem_def js_trunc_def)
qed

lemma normalizeAngle_id: "0 \<le> x \<Longrightarrow> x < 360 \<Longrightarrow> normalizeAngle x = x"
  by (simp add: normalizeAngle_def js_rem_small)

lemma normalizeAngle_minus_10: "normalizeAngle (- 10) = 350"
proof -
  have "\<lceil>- (1 / 36) :: real\<rceil> = 0" by (simp add: ceiling_eq_iff)
  then have "js_rem (- 10) 360 = - 10" by (simp add: js_rem_def js_trunc_def)
  then show ?thesis by (simp add: normalizeAngle_def rnd_350)
qed

lemma normalizeAngle_725: "normalizeAngle 725 = 5"
  by (simp add: normalizeAngle_def js_rem_def js_trunc_def)

lemma normalizeAngle_tiny_negative: "normalizeAngle (- (1 / 2 ^ 70)) = 360"
proof -
  define x :: real where "x = - (1 / 2 ^ 70)"
  have x: "x < 0" "- 360 < x" by (simp_all add: x_def)
  then have "\<lceil>x / 360\<rceil> = 0" by (simp add: ceiling_eq_iff)
  then have j: "js_rem x 360 = x" using x by (simp add: js_rem_def js_trunc_def)
  have r: "rnd (x + 360) = 360" unfolding x_def by (rule rnd_just_below_360)
  have "normalizeAngle x = 360" using x j r by (simp add: normalizeAngle_def)
  then show ?thesis unfolding x_def .
qed

text \<open>
  Claim C7 puts \<open>normalizeAngle x\<close> in \<open>[0, 360)\<close> for every \<open>x\<close>.  For the floating-point
  number \<open>x = -2\<^sup>-\<^sup>7\<^sup>0\<close> the remainder \<open>x % 360\<close> is \<open>x\<close> itself, which is negative, and the
  sum \<open>x + 360\<close> rounds to \<open>360\<close>: the function returns \<open>360\<close>, outside the interval.  (The
  two instances of the claim, \<open>-10\<close> and \<open>725\<close>, are lemmas above.)
\<close>

theorem normalizeAngle_rounds_to_360: "normalizeAngle (- (1 / 2 ^ 70)) = 360"
  by (rule normalizeAngle_tiny_negative)

text \<open>
  The sibling pattern \<open>(x + 360) % 360\<close> of \<open>calculateBearing\<close> and \<open>AngleFilter.update\<close>
  takes the remainder after the sum, and returns \<open>0\<close> at the same input.
\<close>

lemma wrap_after_sum_tiny_negative: "js_rem (rnd (- (1 / 2 ^ 70) + 360)) 360 = 0"
  by (simp only: rnd_just_below_360) (simp add: js_rem_wrap)

subsection \<open>Signed angular difference\<close>

lemma angleDifference_down_props:
  "angleDifference_down d \<le> 180 \<and> (d \<le> 180 \<longrightarrow> angleDifference_down d = d) \<and>
   (180 < d \<longrightarrow> - 180 < angleDifference_down d)"
proof (induction d rule: angleDifference_down.induct)
  case (1 diff)
  show ?case
  proof (cases "180 < diff")
    case True
    with 1 show ?thesis
      by (subst (1 2 3) angleDifference_down.simps) (auto split: if_splits)
  next
    case False
    then show ?thesis by (subst (1 2 3) angleDifference_down.simps) simp
  qed
qed

lemma angleDifference_up_props:
  "e \<le> 180 \<Longrightarrow> - 180 \<le> angleDifference_up e \<and> angleDifference_up e \<le> 180"
proof (induction e rule: angleDifference_up.induct)
  case (1 diff)
  show ?case
  proof (cases "diff < - 180")
    case True
    with 1 show ?thesis
      by (subst (1 2) angleDifference_up.simps) (auto split: if_splits)
  next
    case False
    with 1 show ?thesis by (subst (1 2) angleDifference_up.simps) simp
  qed
qed

lemma angleDifference_closed_range:
  "- 180 \<le> angleDifference a b \<and> angleDifference a b \<le> 180"
  unfolding angleDifference_def using angleDifference_up_props angleDifference_down_props by blast

lemma angleDifference_350_10: "angleDifference 350 10 = 20"
  unfolding angleDifference_def
  by (simp add: rnd_m340 angleDifference_down.simps [of "- 340"]
      angleDifference_up.simps [of "- 340"] angleDifference_up.simps [of 20])

lemma angleDifference_10_350: "angleDifference 10 350 = - 20"
  unfolding angleDifference_def
  by (simp add: rnd_340 angleDifference_down.simps [of 340] angleDifference_down.simps [of "- 20"]
      angleDifference_up.simps [of "- 20"])

lemma angleDifference_180_0: "angleDifference 180 0 = - 180"
  unfolding angleDifference_def
  by (simp add: rnd_m180 angleDifference_down.simps [of "- 180"]
      angleDifference_up.simps [of "- 180"])

text \<open>
  Claim C1, as stated, puts every result in the half-open interval \<open>(-180, 180]\<close>.  The
  second loop runs while \<open>diff < -180\<close>, so a difference of exactly \<open>-180\<close> is returned as it
  is: from \<open>180\<close> to \<open>0\<close> the result is \<open>-180\<close>, outside the interval.
\<close>

theorem angleDifference_half_open_counterexample:
  "\<not> (- 180 < angleDifference 180 0 \<and> angleDifference 180 0 \<le> 180)"
  using angleDifference_180_0 by simp

text \<open>
  Claim C1, amended.  For every pair of angles \<open>a\<close> and \<open>b\<close> whose difference has magnitude
  at most \<open>2\<^sup>5\<^sup>3\<close>, \<open>angleDifference a b\<close> lies in the closed interval \<open>[-180, 180]\<close>, so its
  magnitude never exceeds \<open>180\<close>; in particular \<open>angleDifference 350 10 = 20\<close> and
  \<open>angleDifference 10 350 = -20\<close>.
\<close>

theorem angleDifference_in_closed_range:
  assumes "\<bar>b - a\<bar> \<le> 2 ^ 53"
  shows "- 180 \<le> angleDifference a b \<and> angleDifference a b \<le> 180 \<and>
   \<bar>angleDifference a b\<bar> \<le> 180 \<and>
   angleDifference 350 10 = 20 \<and> angleDifference 10 350 = - 20"
  using angleDifference_closed_range [of a b] angleDifference_350_10 angleDifference_10_350
  by (simp add: abs_le_iff)

theorem angleDifference_in_closed_range_witness:
  "\<bar>(90::real) - 270\<bar> \<le> 2 ^ 53 \<and>
   - 180 \<le> angleDifference 270 90 \<and> angleDifference 270 90 \<le> 180 \<and>
   \<bar>angleDifference 270 90\<bar> \<le> 180"
proof -
  have h: "\<bar>(90::real) - 270\<bar> \<le> 2 ^ 53" by simp
  from angleDifference_in_closed_range [OF h] h show ?thesis by simp
qed

subsection \<open>Haversine distance\<close>

lemma sin_half_squared: "sin (x / 2) * sin (x / 2) = (1 - cos x) / (2::real)"
  using cos_double_sin [of "x / 2"] by (simp add: power2_eq_square)

lemma sin_half_squared_range:
  "0 \<le> sin (x / 2) * sin (x / 2) \<and> sin (x / 2) * sin (x / 2) \<le> (1::real)"
proof
  show "0 \<le> sin (x / 2) * sin (x / 2)" by simp
  show "sin (x / 2) * sin (x / 2) \<le> 1"
    using sin_half_squared [of x] cos_ge_minus_one [of x] by argo
qed

lemma haversine_aux:
  "sin ((q - p) / 2) * sin ((q - p) / 2) + cos p * cos q = (1 + cos (p + q)) / (2::real)"
  by (simp add: sin_half_squared cos_diff cos_add field_simps)

lemma haversine_a_range: "0 \<le> haversine_a a b \<and> haversine_a a b \<le> 1"
proof -
  define p where "p = toRadians (latitude a)"
  define q where "q = toRadians (latitude b)"
  define l where "l = toRadians (longitude b - longitude a)"
  define k where "k = cos p * cos q"
  define t where "t = sin (l / 2) * sin (l / 2)"
  have dlat: "toRadians (latitude b - latitude a) = q - p"
    by (simp add: p_def q_def toRadians_def left_diff_distrib)
  have h: "haversine_a a b = sin ((q - p) / 2) * sin ((q - p) / 2) + k * t"
    by (simp add: haversine_a_def Let_def dlat p_def q_def l_def k_def t_def mult.assoc)
  have t: "0 \<le> t" "t \<le> 1"
    unfolding t_def using sin_half_squared_range [of l] by simp_all
  have s: "0 \<le> sin ((q - p) / 2) * sin ((q - p) / 2)" "sin ((q - p) / 2) * sin ((q - p) / 2) \<le> 1"
    using sin_half_squared_range [of "q - p"] by simp_all
  have e1: "0 \<le> sin ((q - p) / 2) * sin ((q - p) / 2) + k"
    unfolding k_def haversine_aux using cos_ge_minus_one [of "p + q"] by argo
  have e2: "sin ((q - p) / 2) * sin ((q - p) / 2) + k \<le> 1"
    unfolding k_def haversine_aux using cos_le_one [of "p + q"] by argo
  note e = e1 e2
  show ?thesis
  proof (cases "0 \<le> k")
    case True
    then have "0 \<le> k * t" "k * t \<le> k" using t by (simp_all add: mult_left_le)
    with s e show ?thesis unfolding h by linarith
  next
    case False
    then have "k \<le> k * t" "k * t \<le> 0" using t
      by (simp_all add: mult_le_0_iff mult_left_le_one_le mult_nonpos_nonneg)
    with s e show ?thesis unfolding h by linarith
  qed
qed

text \<open>
  Claim C8 says that the distance is symmetric and is \<open>0\<close> from a point to itself.  At the
  pair of antipodes \<open>(8, 0)\<close> and \<open>(-8, 180)\<close> the exact \<open>a\<close> is \<open>1\<close>, the largest value for
  which \<open>1 - a\<close> has a square root.  The code computes \<open>a\<close> with rounding errors and gets
  a value just above \<open>1\<close> there, so it returns NaN in both orders, and NaN is not equal to
  NaN.  The exact arithmetic of the model stays at \<open>a = 1\<close>.
\<close>

lemma haversine_a_antipodes:
  "haversine_a \<lparr>latitude = 8, longitude = 0\<rparr> \<lparr>latitude = - 8, longitude = 180\<rparr> = 1"
proof -
  have "toRadians (180 - 0) / 2 = pi / 2" by (simp add: toRadians_def)
  moreover have "toRadians (- 8 - 8) / 2 = - toRadians 8" by (simp add: toRadians_def)
  moreover have "toRadians (- 8) = - toRadians 8" by (simp add: toRadians_def)
  moreover have "sin (toRadians 8) * sin (toRadians 8) + cos (toRadians 8) * cos (toRadians 8) = 1"
    using sin_cos_squared_add [of "toRadians 8"] by (simp add: power2_eq_square)
  ultimately show ?thesis by (simp add: haversine_a_def Let_def)
qed

section \<open>Properties of the navigation snapshot\<close>

text \<open>
  Claim C3.  For every starting snapshot, every location sample and every heading sample,
  the location reducer followed by the heading reducer gives the same \<open>relativeAngle\<close> as the
  heading reducer followed by the location reducer.
\<close>

theorem relativeAngle_order_independent:
  "relativeAngle (updateDeviceHeading heading (updateLocation location s)) =
   relativeAngle (updateLocation location (updateDeviceHeading heading s))"
  by (simp add: updateDeviceHeading_def updateLocation_def Let_def)

lemma nullity_invariant_initial: "nullity_invariant initialNavigationData"
  by (simp add: nullity_invariant_def initialNavigationData_def)

lemma nullity_invariant_updateLocation:
  "nullity_invariant (updateLocation location s)"
  by (simp add: nullity_invariant_def updateLocation_def Let_def split: option.split)

lemma nullity_invariant_updateDeviceHeading:
  "nullity_invariant s \<Longrightarrow> nullity_invariant (updateDeviceHeading heading s)"
  by (auto simp: nullity_invariant_def updateDeviceHeading_def Let_def split: option.split)

lemma reachable_nullity_invariant: "reachable s \<Longrightarrow> nullity_invariant s"
  by (induction rule: reachable.induct)
    (simp_all add: nullity_invariant_initial nullity_invariant_updateLocation
      nullity_invariant_updateDeviceHeading)

text \<open>
  Claim C4.  The joint-nullity invariant holds for the initial snapshot, is preserved by the
  location reducer and by the heading reducer, and so holds for every reachable snapshot.
\<close>

theorem nullity_invariant_preserved:
  "nullity_invariant initialNavigationData \<and>
   (nullity_invariant s \<longrightarrow> nullity_invariant (updateLocation location s)) \<and>
   (nullity_invariant s \<longrightarrow> nullity_invariant (updateDeviceHeading heading s)) \<and>
   (reachable s \<longrightarrow> nullity_invariant s)"
  using nullity_invariant_initial nullity_invariant_updateLocation
    nullity_invariant_updateDeviceHeading reachable_nullity_invariant
  by blast

theorem nullity_invariant_preserved_witness:
  "nullity_invariant initialNavigationData \<and>
   nullity_invariant (updateLocation \<lparr>latitude = 13, longitude = 77\<rparr> initialNavigationData) \<and>
   nullity_invariant (updateDeviceHeading 90 initialNavigationData) \<and>
   reachable (updateDeviceHeading 90
     (updateLocation \<lparr>latitude = 13, longitude = 77\<rparr> initialNavigationData)) \<and>
   nullity_invariant (updateDeviceHeading 90
     (updateLocation \<lparr>latitude = 13, longitude = 77\<rparr> initialNavigationData))"
proof -
  let ?c = "\<lparr>latitude = 13, longitude = 77\<rparr>"
  let ?s = "updateDeviceHeading 90 (updateLocation ?c initialNavigationData)"
  have r: "reachable ?s"
    by (intro reachable_heading reachable_location reachable_initial)
  from nullity_invariant_preserved [of initialNavigationData ?c 90]
    nullity_invariant_preserved [of ?s ?c 90] r
  show ?thesis by simp
qed

text \<open>
  Claim C9.  For every snapshot and every heading sample, the heading reducer changes only
  the fields \<open>deviceHeading\<close> and \<open>relativeAngle\<close>; \<open>userLocation\<close>, \<open>targetLocation\<close>,
  \<open>distance\<close> and \<open>bearing\<close> are carried forward unchanged.
\<close>

theorem updateDeviceHeading_frame:
  "userLocation (updateDeviceHeading heading s) = userLocation s \<and>
   targetLocation (updateDeviceHeading heading s) = targetLocation s \<and>
   distance (updateDeviceHeading heading s) = distance s \<and>
   bearing (updateDeviceHeading heading s) = bearing s \<and>
   updateDeviceHeading heading s =
     s\<lparr>deviceHeading := deviceHeading (updateDeviceHeading heading s),
       relativeAngle := relativeAngle (updateDeviceHeading heading s)\<rparr>"
  by (simp add: updateDeviceHeading_def Let_def)

section \<open>Subscriber fan-out\<close>

lemma forEach_all_return:
  "\<forall>l\<in>set ls. l a = None \<Longrightarrow> forEach ls a = (length ls, None)"
  by (induction ls) simp_all

lemma forEach_throw:
  "\<forall>l\<in>set pre. l a = None \<Longrightarrow> t a = Some e \<Longrightarrow>
   forEach (pre @ t # post) a = (Suc (length pre), Some e)"
  by (induction pre) simp_all

lemma processDeviceMotion_state:
  "fst (processDeviceMotion (Some r) s) =
   (fst (processDeviceMotion (Some r) (s\<lparr>listeners := []\<rparr>)))\<lparr>listeners := listeners s\<rparr>"
  by (simp add: processDeviceMotion_def Let_def split_beta)

lemma processDeviceMotion_notify:
  "snd (processDeviceMotion (Some r) s) =
   (let s' = fst (processDeviceMotion (Some r) s)
    in forEach (listeners s) (currentHeading s', currentPitch s', currentRoll s'))"
  by (simp add: processDeviceMotion_def Let_def split_beta notifyListeners_def)

text \<open>
  Claim C5, as stated, has the ingest operation return without error when a subscriber
  throws.  Neither \<open>notifyListeners\<close> nor \<open>processDeviceMotion\<close> has a handler: with a single
  subscriber that throws, the exception leaves the ingest call.
\<close>

theorem ingest_returns_counterexample:
  "\<not> snd (snd (processDeviceMotion (Some \<lparr>rot_alpha = 0, rot_beta = 0, rot_gamma = 0\<rparr>)
       (SensorService_new\<lparr>listeners := [throwing_subscriber]\<rparr>))) = None"
  by (simp add: processDeviceMotion_notify Let_def throwing_subscriber_def)

text \<open>
  Claim C5, amended.  If a subscriber callback throws during the fan-out of an ingest event,
  the exception is not caught: it leaves the ingest operation (\<open>processDeviceMotion\<close>, and
  the location watch callback).  The engine has stored the new sample before the fan-out
  and keeps it (the state is the one the same ingest leaves with no subscriber at all, and
  the new fix is the last-known location), the subscribers registered before the throwing
  one have been called, and the remaining subscribers are skipped for that event.
\<close>

theorem fanout_exception_propagates:
  fixes s :: "'e SensorService" and ls :: "'e LocationService" and r :: Rotation
  defines "s' \<equiv> fst (processDeviceMotion (Some r) s)"
  defines "args \<equiv> (currentHeading s', currentPitch s', currentRoll s')"
  assumes "listeners s = pre @ t # post"
    and "\<forall>l\<in>set pre. l args = None"
    and "t args = Some e"
    and "locationListeners ls = pre' @ t' # post'"
    and "\<forall>l\<in>set pre'. l c = None"
    and "t' c = Some e'"
  shows "processDeviceMotion (Some r) s = (s', Suc (length pre), Some e) \<and>
    s' = (fst (processDeviceMotion (Some r) (s\<lparr>listeners := []\<rparr>)))\<lparr>listeners := listeners s\<rparr> \<and>
    currentHeading s' =
      normalizeAngle (fst (AngleFilter_update (normalizeAngle (rot_alpha r * (180 / pi)))
        (headingFilter s)) + calibrationOffset s) \<and>
    locationCallback c ls = (ls\<lparr>currentLocation := Some c\<rparr>, Suc (length pre'), Some e')"
proof (intro conjI)
  show "currentHeading s' =
      normalizeAngle (fst (AngleFilter_update (normalizeAngle (rot_alpha r * (180 / pi)))
        (headingFilter s)) + calibrationOffset s)"
    by (simp add: s'_def processDeviceMotion_def Let_def split_beta)
  have "snd (processDeviceMotion (Some r) s) = (Suc (length pre), Some e)"
    using assms(3-5) forEach_throw [of pre args t e post]
    by (simp add: processDeviceMotion_notify Let_def s'_def args_def)
  then show "processDeviceMotion (Some r) s = (s', Suc (length pre), Some e)"
    by (simp add: prod_eq_iff s'_def)
  show "s' = (fst (processDeviceMotion (Some r) (s\<lparr>listeners := []\<rparr>)))\<lparr>listeners := listeners s\<rparr>"
    unfolding s'_def by (rule processDeviceMotion_state)
  show "locationCallback c ls = (ls\<lparr>currentLocation := Some c\<rparr>, Suc (length pre'), Some e')"
    using assms(6-8) by (simp add: locationCallback_def Let_def forEach_throw)
qed

theorem fanout_exception_propagates_witness:
  "snd (processDeviceMotion (Some \<lparr>rot_alpha = 0, rot_beta = 0, rot_gamma = 0\<rparr>)
     (SensorService_new
        \<lparr>listeners := [returning_subscriber, throwing_subscriber, returning_subscriber]\<rparr>)) =
   (2, Some ()) \<and>
   locationCallback \<lparr>latitude = 13, longitude = 77\<rparr>
     \<lparr>currentLocation = None,
      locationListeners = [returning_subscriber, throwing_subscriber, returning_subscriber]\<rparr> =
   (\<lparr>currentLocation = Some \<lparr>latitude = 13, longitude = 77\<rparr>,
      locationListeners = [returning_subscriber, throwing_subscriber, returning_subscriber]\<rparr>,
    2, Some ())"
proof -
  let ?s = "SensorService_new
    \<lparr>listeners := [returning_subscriber, throwing_subscriber, returning_subscriber]\<rparr>
    :: unit SensorService"
  let ?ls = "\<lparr>currentLocation = None,
     locationListeners = [returning_subscriber, throwing_subscriber, returning_subscriber]\<rparr>
    :: unit LocationService"
  have 1: "listeners ?s = [returning_subscriber] @ throwing_subscriber # [returning_subscriber]"
    by simp
  have 2: "locationListeners ?ls =
      [returning_subscriber] @ throwing_subscriber # [returning_subscriber]"
    by simp
  from fanout_exception_propagates [OF 1 _ _ 2,
      of "\<lparr>rot_alpha = 0, rot_beta = 0, rot_gamma = 0\<rparr>" "()"
        "\<lparr>latitude = 13, longitude = 77\<rparr>" "()"]
  show ?thesis
    by (simp add: prod_eq_iff returning_subscriber_def throwing_subscriber_def)
qed

section \<open>Properties of the circular angle filter\<close>

subsection \<open>The angle of a point\<close>

lemma atan2_polar:
  assumes r: "0 < r" and lo: "- pi < a" and hi: "a \<le> pi"
  shows "atan2 (r * sin a) (r * cos a) = a"
proof -
  have q: "(r * sin a) / (r * cos a) = tan a"
    using r by (simp add: tan_def)
  consider (mid) "- (pi / 2) < a" "a < pi / 2" | (top) "a = pi / 2" | (bot) "a = - (pi / 2)"
    | (left) "pi / 2 < a" | (right) "a < - (pi / 2)"
    by linarith
  then show ?thesis
  proof cases
    case mid
    then have "0 < cos a" by (rule cos_gt_zero_pi)
    then have "0 < r * cos a" using r by simp
    then show ?thesis unfolding atan2_def q using arctan_tan [OF mid] by simp
  next
    case top
    show ?thesis unfolding top using r by (simp add: atan2_def)
  next
    case bot
    show ?thesis unfolding bot using r by (simp add: atan2_def)
  next
    case left
    have "0 < cos (a - pi)" using left hi by (intro cos_gt_zero_pi) linarith+
    then have c: "cos a < 0" by simp
    have s: "0 \<le> sin a" using left hi by (intro sin_ge_zero) linarith+
    have "tan (a - pi) = tan a" using tan_periodic_pi [of "a - pi"] by simp
    then have "arctan (tan a) = a - pi"
      using arctan_tan [of "a - pi"] left hi by simp
    moreover have "r * cos a < 0" using c r by (simp add: mult_less_0_iff)
    moreover have "0 \<le> r * sin a" using s r by simp
    ultimately show ?thesis unfolding atan2_def q by simp
  next
    case right
    have "0 < cos (a + pi)" using right lo by (intro cos_gt_zero_pi) linarith+
    then have c: "cos a < 0" by simp
    have "0 < sin (- a)" using right lo by (intro sin_gt_zero) linarith+
    then have s: "sin a < 0" by simp
    have "arctan (tan a) = a + pi"
      using arctan_tan [of "a + pi"] right lo by simp
    moreover have "r * cos a < 0" using c r by (simp add: mult_less_0_iff)
    moreover have "r * sin a < 0" using s r by (simp add: mult_less_0_iff)
    ultimately show ?thesis unfolding atan2_def q by simp
  qed
qed

lemma atan2_range: "- pi < atan2 y x \<and> atan2 y x \<le> pi"
proof -
  have "- (pi / 2) < arctan (y / x)" "arctan (y / x) < pi / 2"
    by (rule arctan_lbound, rule arctan_ubound)
  moreover have "x < 0 \<Longrightarrow> 0 \<le> y \<Longrightarrow> arctan (y / x) \<le> 0"
    by (simp add: divide_nonneg_neg)
  moreover have "x < 0 \<Longrightarrow> y < 0 \<Longrightarrow> 0 < arctan (y / x)"
    by (simp add: divide_neg_neg)
  moreover have "0 < pi" by simp
  ultimately show ?thesis unfolding atan2_def by (auto simp: not_less; linarith)
qed


subsection \<open>One update\<close>

lemma AngleFilter_update_smoothed:
  "fst (AngleFilter_update x f) =
   smoothed (sinAvg (snd (AngleFilter_update x f))) (cosAvg (snd (AngleFilter_update x f)))"
  by (simp add: AngleFilter_update_def smoothed_def Let_def)

lemma AngleFilter_update_snd:
  "snd (AngleFilter_update x f) =
   f\<lparr>sinAvg := alpha f * sin (x * pi / 180) + (1 - alpha f) * sinAvg f,
     cosAvg := alpha f * cos (x * pi / 180) + (1 - alpha f) * cosAvg f\<rparr>"
  by (simp add: AngleFilter_update_def Let_def)


text \<open>
  The value returned is the angle of the accumulators in degrees, or that angle plus \<open>360\<close>,
  up to the rounding of the sum: an error \<open>eta\<close> of at most \<open>2\<^sup>-\<^sup>4\<^sup>4\<close>.
\<close>

lemma smoothed_shift:
  "\<exists>eta. \<bar>eta\<bar> \<le> 1 / 2 ^ 44 \<and>
     (smoothed S C = atan2 S C * 180 / pi + eta \<or>
      smoothed S C = atan2 S C * 180 / pi + 360 + eta)"
proof -
  define d where "d = atan2 S C * 180 / pi"
  define z where "z = rnd (d + 360)"
  define eta where "eta = z - (d + 360)"
  have "- pi < atan2 S C" "atan2 S C \<le> pi" using atan2_range [of S C] by simp_all
  then have d: "- 180 < d" "d \<le> 180" by (simp_all add: d_def field_simps)
  then have "128 \<le> d + 360" "d + 360 < 1024" by linarith+
  then have eta: "\<bar>eta\<bar> \<le> 1 / 2 ^ 44" unfolding eta_def z_def by (rule rnd_error_near_360)
  have "1 / 2 ^ 44 \<le> (1::real)" by simp
  with eta have e1: "\<bar>eta\<bar> \<le> 1" by linarith
  have s: "smoothed S C = js_rem z 360" by (simp add: smoothed_def z_def d_def)
  have zd: "z = d + 360 + eta" by (simp add: eta_def)
  show ?thesis
  proof (cases "z < 360")
    case True
    moreover have "0 \<le> z" using zd d e1 by linarith
    ultimately have "js_rem z 360 = z" by (simp add: js_rem_small)
    then have "smoothed S C = atan2 S C * 180 / pi + 360 + eta"
      unfolding s zd d_def by simp
    with eta show ?thesis by blast
  next
    case False
    moreover have "z < 720" using zd d e1 by linarith
    ultimately have "js_rem z 360 = z - 360" by (simp add: js_rem_wrap)
    then have "smoothed S C = atan2 S C * 180 / pi + eta"
      unfolding s zd d_def by simp
    with eta show ?thesis by blast
  qed
qed

lemma smoothed_range: "0 \<le> smoothed S C \<and> smoothed S C < 360"
proof -
  obtain eta where eta: "\<bar>eta\<bar> \<le> 1 / 2 ^ 44"
    and c: "smoothed S C = atan2 S C * 180 / pi + eta \<or>
      smoothed S C = atan2 S C * 180 / pi + 360 + eta"
    using smoothed_shift [of S C] by blast
  define z where "z = rnd (atan2 S C * 180 / pi + 360)"
  have "- pi < atan2 S C" using atan2_range [of S C] by simp
  then have d: "- 180 < atan2 S C * 180 / pi" by (simp add: field_simps)
  have "128 \<le> atan2 S C * 180 / pi + 360" using d by linarith
  moreover have "atan2 S C * 180 / pi + 360 < 1024"
  proof -
    have "atan2 S C \<le> pi" using atan2_range [of S C] by simp
    then have "atan2 S C * 180 / pi \<le> 180" by (simp add: field_simps)
    then show ?thesis by linarith
  qed
  ultimately have "\<bar>z - (atan2 S C * 180 / pi + 360)\<bar> \<le> 1 / 2 ^ 44"
    unfolding z_def by (rule rnd_error_near_360)
  moreover have "1 / 2 ^ 44 \<le> (1::real)" by simp
  ultimately have "0 \<le> z" using d by linarith
  then show ?thesis unfolding smoothed_def z_def [symmetric] by (rule js_rem_nonneg)
qed

text \<open>
  Accumulators that are a positive multiple of \<open>(sin, cos)\<close> of an angle give that angle
  back, modulo \<open>360\<close> and up to the rounding of the last sum.
\<close>

lemma smoothed_of_scaled:
  fixes x k :: real
  assumes k: "0 < k"
  shows "\<exists>m::int. \<bar>smoothed (k * sin (x * pi / 180)) (k * cos (x * pi / 180)) - x
           - 360 * of_int m\<bar> \<le> 1 / 2 ^ 44"
proof -
  define S where "S = k * sin (x * pi / 180)"
  define C where "C = k * cos (x * pi / 180)"
  obtain a where a: "- pi < a" "a \<le> pi" "sin a = sin (x * pi / 180)" "cos a = cos (x * pi / 180)"
    using sincos_principal_value [of "x * pi / 180"] by blast
  have "atan2 (k * sin a) (k * cos a) = a" using k a(1,2) by (rule atan2_polar)
  then have at: "atan2 S C = a" by (simp add: S_def C_def a)
  obtain n :: int where "a = x * pi / 180 + 2 * pi * of_int n"
    using a(3,4) sin_cos_eq_iff [of a "x * pi / 180"] by blast
  then have dn: "atan2 S C * 180 / pi = x + 360 * of_int n" unfolding at by (simp add: field_simps)
  obtain eta where eta: "\<bar>eta\<bar> \<le> 1 / 2 ^ 44"
    and c: "smoothed S C = atan2 S C * 180 / pi + eta \<or>
      smoothed S C = atan2 S C * 180 / pi + 360 + eta"
    using smoothed_shift [of S C] by blast
  from c show ?thesis
  proof
    assume "smoothed S C = atan2 S C * 180 / pi + eta"
    then have "smoothed S C - x - 360 * of_int n = eta" unfolding dn by simp
    with eta show ?thesis unfolding S_def C_def by metis
  next
    assume "smoothed S C = atan2 S C * 180 / pi + 360 + eta"
    then have "smoothed S C - x - 360 * of_int (n + 1) = eta" unfolding dn by simp
    with eta show ?thesis unfolding S_def C_def by metis
  qed
qed

lemma first_update:
  assumes "0 < alpha f" "sinAvg f = 0" "cosAvg f = 0"
  shows "\<exists>m::int. \<bar>fst (AngleFilter_update x f) - x - 360 * of_int m\<bar> \<le> 1 / 2 ^ 44"
  using smoothed_of_scaled [OF assms(1), of x] assms(2,3)
  by (simp add: AngleFilter_update_smoothed AngleFilter_update_snd)

lemma update_range: "0 \<le> fst (AngleFilter_update x f) \<and> fst (AngleFilter_update x f) < 360"
  unfolding AngleFilter_update_smoothed by (rule smoothed_range)

text \<open>
  Claim C10 has the first update after construction or reset return exactly the input
  angle normalised to \<open>[0, 360)\<close>.  For the input \<open>-2\<^sup>-\<^sup>7\<^sup>0\<close> on a fresh filter with factor
  \<open>0.2\<close> the angle of the accumulators is the input itself, the sum with \<open>360\<close> rounds to
  \<open>360\<close>, and the remainder is \<open>0\<close>: the update returns \<open>0\<close>, which is neither the exact
  representative \<open>360 - 2\<^sup>-\<^sup>7\<^sup>0\<close> of the input in \<open>[0, 360)\<close> nor the value \<open>360\<close> of
  \<open>normalizeAngle\<close> there.
\<close>

theorem first_update_exact_counterexample:
  "fst (AngleFilter_update (- (1 / 2 ^ 70)) (AngleFilter_new 0.2)) = 0 \<and>
   fst (AngleFilter_update (- (1 / 2 ^ 70)) (AngleFilter_new 0.2)) \<noteq> 360 - 1 / 2 ^ 70 \<and>
   normalizeAngle (- (1 / 2 ^ 70)) = 360"
proof -
  define x :: real where "x = - (1 / 2 ^ 70)"
  define r where "r = x * pi / 180"
  have x: "- 180 < x" "x \<le> 180" by (simp_all add: x_def)
  have p: "0 < pi / 180" by simp
  have "- 180 * (pi / 180) < x * (pi / 180)" using x(1) p by (rule mult_strict_right_mono)
  moreover have "x * (pi / 180) \<le> 180 * (pi / 180)" using x(2) p by (intro mult_right_mono) simp_all
  ultimately have r: "- pi < r" "r \<le> pi" by (simp_all add: r_def)
  have "atan2 (0.2 * sin r) (0.2 * cos r) = r" using _ r by (rule atan2_polar) simp
  then have d: "atan2 (0.2 * sin r) (0.2 * cos r) * 180 / pi = x" by (simp add: r_def)
  have "rnd (x + 360) = 360" unfolding x_def by (rule rnd_just_below_360)
  then have "smoothed (0.2 * sin r) (0.2 * cos r) = 0"
    unfolding smoothed_def d by (simp add: js_rem_wrap)
  then have "fst (AngleFilter_update x (AngleFilter_new 0.2)) = 0"
    by (simp add: AngleFilter_update_smoothed AngleFilter_update_snd AngleFilter_new_def r_def)
  moreover have "(0::real) \<noteq> 360 - 1 / 2 ^ 70" by simp
  ultimately show ?thesis unfolding x_def using normalizeAngle_tiny_negative by simp
qed

text \<open>
  Claim C10, amended.  For the circular angle filter with a clamped smoothing factor of at
  least \<open>0.001\<close> and an input angle of magnitude at most \<open>10\<^sup>6\<close>, the very first update after
  construction or after reset returns a value in \<open>[0, 360)\<close> that is the input angle modulo
  \<open>360\<close> up to rounding (within \<open>10\<^sup>-\<^sup>6\<close> degrees): there is no warm-up lag.
\<close>

theorem first_update_within_rounding:
  "(1 / 1000 \<le> a \<and> \<bar>x\<bar> \<le> 10 ^ 6 \<longrightarrow>
      (\<exists>m::int. \<bar>fst (AngleFilter_update x (AngleFilter_new a)) - x - 360 * of_int m\<bar>
         \<le> 1 / 10 ^ 6) \<and>
      0 \<le> fst (AngleFilter_update x (AngleFilter_new a)) \<and>
      fst (AngleFilter_update x (AngleFilter_new a)) < 360) \<and>
   (1 / 1000 \<le> alpha f \<and> alpha f \<le> 1 \<and> \<bar>x\<bar> \<le> 10 ^ 6 \<longrightarrow>
      (\<exists>m::int. \<bar>fst (AngleFilter_update x (AngleFilter_reset f)) - x - 360 * of_int m\<bar>
         \<le> 1 / 10 ^ 6) \<and>
      0 \<le> fst (AngleFilter_update x (AngleFilter_reset f)) \<and>
      fst (AngleFilter_update x (AngleFilter_reset f)) < 360)"
proof -
  have t: "1 / 2 ^ 44 \<le> 1 / (10 ^ 6 :: real)" by simp
  have 1: "\<exists>m::int. \<bar>fst (AngleFilter_update x g) - x - 360 * of_int m\<bar> \<le> 1 / 10 ^ 6"
    if g: "0 < alpha g" "sinAvg g = 0" "cosAvg g = 0" for g
  proof -
    obtain m :: int where "\<bar>fst (AngleFilter_update x g) - x - 360 * of_int m\<bar> \<le> 1 / 2 ^ 44"
      using first_update [OF g] by blast
    with t have "\<bar>fst (AngleFilter_update x g) - x - 360 * of_int m\<bar> \<le> 1 / 10 ^ 6"
      by linarith
    then show ?thesis by blast
  qed
  have n: "0 < alpha (AngleFilter_new a)" "sinAvg (AngleFilter_new a) = 0"
    "cosAvg (AngleFilter_new a) = 0" if "1 / 1000 \<le> a"
    using that by (simp_all add: AngleFilter_new_def)
  have r: "0 < alpha (AngleFilter_reset f)" "sinAvg (AngleFilter_reset f) = 0"
    "cosAvg (AngleFilter_reset f) = 0" if "1 / 1000 \<le> alpha f"
    using that by (simp_all add: AngleFilter_reset_def)
  show ?thesis using 1 [OF n] 1 [OF r] update_range by blast
qed

theorem first_update_within_rounding_witness:
  "(\<exists>m::int. \<bar>fst (AngleFilter_update 725 (AngleFilter_new 0.2)) - 725 - 360 * of_int m\<bar>
      \<le> 1 / 10 ^ 6) \<and>
   (\<exists>m::int. \<bar>fst (AngleFilter_update 725
        (AngleFilter_reset (snd (AngleFilter_update 180 (AngleFilter_new 0.2))))) - 725
        - 360 * of_int m\<bar> \<le> 1 / 10 ^ 6)"
proof -
  let ?g = "snd (AngleFilter_update 180 (AngleFilter_new 0.2))"
  have g: "1 / 1000 \<le> alpha ?g \<and> alpha ?g \<le> 1 \<and> \<bar>725 :: real\<bar> \<le> 10 ^ 6"
    by (simp add: AngleFilter_update_snd AngleFilter_new_def)
  have a: "1 / 1000 \<le> (0.2 :: real) \<and> \<bar>725 :: real\<bar> \<le> 10 ^ 6" by simp
  from first_update_within_rounding [of "0.2" 725 ?g] a g show ?thesis by blast
qed

section \<open>Calibration\<close>

text \<open>A quarter turn, \<open>alpha = \<pi>/2\<close>, on a filter whose accumulators point at \<open>90\<close> degrees.\<close>

lemma update_90:
  assumes "0 < alpha f" "alpha f \<le> 1" "0 \<le> sinAvg f" "cosAvg f = 0"
  shows "fst (AngleFilter_update 90 f) = 90 \<and>
         0 < alpha (snd (AngleFilter_update 90 f)) \<and> alpha (snd (AngleFilter_update 90 f)) \<le> 1 \<and>
         0 \<le> sinAvg (snd (AngleFilter_update 90 f)) \<and> cosAvg (snd (AngleFilter_update 90 f)) = 0"
proof -
  let ?S = "alpha f + (1 - alpha f) * sinAvg f"
  have "0 \<le> (1 - alpha f) * sinAvg f" using assms by simp
  then have S: "0 < ?S" using assms(1) by linarith
  have snd: "snd (AngleFilter_update 90 f) = f\<lparr>sinAvg := ?S, cosAvg := 0\<rparr>"
    using assms(4) by (simp add: AngleFilter_update_snd)
  have at: "atan2 ?S 0 = pi / 2" using S by (simp add: atan2_def)
  have e: "pi / 2 * 180 / pi + 360 = (450::real)" by simp
  have "fst (AngleFilter_update 90 f) = smoothed ?S 0"
    unfolding AngleFilter_update_smoothed snd by simp
  also have "\<dots> = js_rem (rnd (pi / 2 * 180 / pi + 360)) 360" unfolding smoothed_def at ..
  also have "\<dots> = 90" unfolding e rnd_450 by (simp add: js_rem_wrap)
  finally show ?thesis unfolding snd using S assms by simp
qed

lemma ingest_quarter:
  assumes "pointing_90 s"
  shows "currentHeading (fst (processDeviceMotion quarter s)) = normalizeAngle (90 + calibrationOffset s) \<and>
         calibrationOffset (fst (processDeviceMotion quarter s)) = calibrationOffset s \<and>
         pointing_90 (fst (processDeviceMotion quarter s))"
proof -
  have n: "normalizeAngle (pi / 2 * (180 / pi)) = 90" "normalizeAngle 90 = 90"
    by (simp_all add: normalizeAngle_id)
  show ?thesis
    using update_90 [of "headingFilter s"] assms
    by (simp add: processDeviceMotion_def quarter_def n Let_def split_beta pointing_90_def)
qed

lemma pointing_90_calibrate: "pointing_90 (calibrate t s) = pointing_90 s"
  by (simp add: pointing_90_def calibrate_def)

lemma pointing_90_new: "pointing_90 SensorService_new"
  by (simp add: pointing_90_def SensorService_new_def AngleFilter_new_def)

lemma calibrate_then_ingest:
  assumes "fst (AngleFilter_update (normalizeAngle (rot_alpha r * (180 / pi))) (headingFilter s)) = h0"
  shows "currentHeading (fst (processDeviceMotion (Some r) (calibrate trueHeading s))) =
         normalizeAngle (h0 + (trueHeading - currentHeading s))"
  using assms by (simp add: processDeviceMotion_def calibrate_def Let_def split_beta)

text \<open>
  Claim C2 says that \<open>calibrate T\<close> followed by a repeated ingest of the same raw sample
  yields the heading \<open>T\<close>, for every prior calibration state.  \<open>calibrate\<close> subtracts
  \<open>currentHeading\<close>, which already contains the offset of an earlier calibration.  The
  scenario: a fresh engine ingests a quarter turn (heading \<open>90\<close>); \<open>calibrate 100\<close> sets the
  offset \<open>10\<close> and the repeated ingest reads \<open>100\<close>, as claimed.  A second \<open>calibrate 100\<close> in
  the same orientation sets the offset \<open>100 - 100 = 0\<close>, and the repeated ingest reads \<open>90\<close>,
  not \<open>100\<close>.
\<close>

theorem recalibrate_loses_calibration:
  "let s1 = fst (processDeviceMotion quarter (SensorService_new :: unit SensorService));
       s2 = calibrate 100 s1;
       s3 = fst (processDeviceMotion quarter s2);
       s4 = calibrate 100 s3;
       s5 = fst (processDeviceMotion quarter s4)
   in currentHeading s1 = 90 \<and> calibrationOffset s2 = 10 \<and> currentHeading s3 = 100 \<and>
      calibrationOffset s4 = 0 \<and> currentHeading s5 = 90"
proof -
  let ?s0 = "SensorService_new :: unit SensorService"
  let ?s1 = "fst (processDeviceMotion quarter ?s0)"
  let ?s2 = "calibrate 100 ?s1"
  let ?s3 = "fst (processDeviceMotion quarter ?s2)"
  let ?s4 = "calibrate 100 ?s3"
  let ?s5 = "fst (processDeviceMotion quarter ?s4)"
  have p0: "pointing_90 ?s0" by (rule pointing_90_new)
  have o0: "calibrationOffset ?s0 = 0" by (simp add: SensorService_new_def)
  have h1: "currentHeading ?s1 = 90" and p1: "pointing_90 ?s1"
    using ingest_quarter [OF p0] o0 by (simp_all add: normalizeAngle_id)
  have o2: "calibrationOffset ?s2 = 10" and p2: "pointing_90 ?s2"
    using h1 p1 by (simp_all add: calibrate_def pointing_90_def)
  have h3: "currentHeading ?s3 = 100" and p3: "pointing_90 ?s3"
    using ingest_quarter [OF p2] o2 by (simp_all add: normalizeAngle_id)
  have o4: "calibrationOffset ?s4 = 0" and p4: "pointing_90 ?s4"
    using h3 p3 by (simp_all add: calibrate_def pointing_90_def)
  have h5: "currentHeading ?s5 = 90"
    using ingest_quarter [OF p4] o4 by (simp add: normalizeAngle_id)
  show ?thesis unfolding Let_def using h1 o2 h3 o4 h5 by blast
qed

section \<open>Convergence of the circular angle filter\<close>

subsection \<open>The accumulators after a run of updates\<close>

lemma feed_length: "length (fst (AngleFilter_feed xs f)) = length xs"
  by (induction xs arbitrary: f) (simp_all add: split_beta)










subsection \<open>The reported angle of accumulators close to a direction\<close>










subsection \<open>The same angle, repeatedly\<close>



subsection \<open>Alternating 350 and 10\<close>




subsection \<open>The claim\<close>







end
